theory Spec2Isabelle
  imports Main
begin

section \<open>VSplitter: interval resolution and job planning (src/main.py)\<close>

subsection \<open>Data model\<close>

text \<open>
  A clip range of the configuration is the JSON array \<open>[name, interval]\<close>, where
  \<open>interval\<close> is a list of timestamp strings. \<open>fix_intervals\<close> changes the interval
  lists in place (\<open>interval.insert(0, ...)\<close>), so the interval lists live in an explicit
  store: a \<open>split\<close> holds the name and the reference of its interval list, and the store
  maps each reference to the current content of the list object. The outer list and the
  two-element split lists are never written, so they are plain values. The assertion of
  line 12 (\<open>len(split) == 2\<close>) holds by the type of \<open>split\<close>.
\<close>

type_synonym ref = nat
type_synonym interval = "string list"
type_synonym store = "ref \<Rightarrow> interval"
type_synonym split = "string \<times> ref"
type_synonym clip_spec = "string \<times> interval"

text \<open>
  The exceptions the modelled code can raise. \<open>Conflict interval name\<close> is the assertion of
  line 15 and \<open>Incompatible interval name\<close> the one of line 59, each carrying the two values
  its message interpolates; \<open>IndexError\<close> is \<open>prev_interval[-1]\<close> on an empty list and
  \<open>ValueError\<close> the unpacking \<open>start, end = interval\<close> of a list that has not two elements.
  \<open>FileNotFoundError\<close> and \<open>OtherError\<close> (any other exception, by its message) come from
  the first lines of \<open>main\<close>: locating the tool, reading the configuration file and
  creating the output directory.
\<close>

datatype error =
    Conflict interval string
  | Incompatible interval string
  | IndexError
  | ValueError
  | FileNotFoundError
  | OtherError string

text \<open>
  The call \<open>FFmpeg().option('y').input(source_path).output(file_output_path, config).execute()\<close>
  of \<open>build_clip\<close>, as the record of what it hands to the external tool.
\<close>

record invocation =
  global_options :: "string list"
  input_url :: string
  output_url :: string
  output_options :: "string \<rightharpoonup> string"

text \<open>The parsed configuration document: \<open>output_dir\<close>, and per source \<open>path\<close> and \<open>clip_ranges\<close>.\<close>

record source_file =
  sf_path :: string
  sf_clip_ranges :: "clip_spec list"

record splits_config =
  cfg_output_dir :: string
  cfg_source_files :: "source_file list"

subsection \<open>fix_intervals (lines 8 to 27)\<close>

text \<open>
  The loop \<open>for i, split in enumerate(clip_ranges)\<close>: \<open>i\<close> is the index, the third argument the
  splits still to visit, \<open>h\<close> the store. \<open>interval.insert(0, x)\<close> is the store update
  \<open>h(r := x # interval)\<close>.
\<close>

fun fix_loop :: "split list \<Rightarrow> nat \<Rightarrow> split list \<Rightarrow> store \<Rightarrow> error + store" where
  "fix_loop clip_ranges i [] h = Inr h"
| "fix_loop clip_ranges i ((name, r) # rest) h =
    (let interval = h r in
     if \<not> (0 < length interval \<and> length interval < 3) then Inl (Conflict interval name)
     else if length interval = 1 then
       (if i = 0 then
          fix_loop clip_ranges (Suc i) rest (h(r := ''00:00:00'' # interval))
        else if i = length clip_ranges - 1 then
          fix_loop clip_ranges (Suc i) rest h
        else
          (let prev_interval = h (snd (clip_ranges ! (i - 1))) in
           if prev_interval = [] then Inl IndexError
           else fix_loop clip_ranges (Suc i) rest (h(r := last prev_interval # interval))))
     else fix_loop clip_ranges (Suc i) rest h)"

text \<open>\<open>fix_intervals\<close> returns the very list it was given; the store is the other result.\<close>

definition fix_intervals :: "split list \<Rightarrow> store \<Rightarrow> error + (split list \<times> store)" where
  "fix_intervals clip_ranges h =
     (case fix_loop clip_ranges 0 clip_ranges h of
        Inl e \<Rightarrow> Inl e
      | Inr h' \<Rightarrow> Inr (clip_ranges, h'))"

subsection \<open>build_clip (lines 29 to 31)\<close>

definition build_clip :: "string \<Rightarrow> string \<Rightarrow> (string \<rightharpoonup> string) \<Rightarrow> invocation" where
  "build_clip source_path file_output_path config =
     \<lparr>global_options = [''y''], input_url = source_path,
      output_url = file_output_path, output_options = config\<rparr>"

subsection \<open>main (lines 33 to 79)\<close>

text \<open>
  \<open>json.load\<close> builds a fresh list object for every JSON array, so no two clips share an
  interval list: the clip at position \<open>k\<close> gets reference \<open>k\<close>.
\<close>

definition load_clip_ranges :: "clip_spec list \<Rightarrow> split list \<times> store" where
  "load_clip_ranges cs =
     (zip (map fst cs) [0..<length cs],
      \<lambda>r. if r < length cs then snd (cs ! r) else [])"

text \<open>\<open>source_path.split('.')[-1]\<close>: what follows the last dot, or the whole path without one.\<close>

definition source_ext_of :: "string \<Rightarrow> string" where
  "source_ext_of source_path = rev (takeWhile (\<lambda>c. c \<noteq> CHR ''.'') (rev source_path))"

text \<open>Lines 67 to 71: the start and the end of a clip; the empty string stands for no end.\<close>

definition start_end :: "nat \<Rightarrow> nat \<Rightarrow> interval \<Rightarrow> error + (string \<times> string)" where
  "start_end i n interval =
     (if i = n - 1 \<and> length interval = 1 then Inr (interval ! 0, [])
      else (case interval of
              [start, end'] \<Rightarrow> Inr (start, end')
            | _ \<Rightarrow> Inl ValueError))"

text \<open>Lines 61 and 73 to 75: the option mapping of one clip.\<close>

definition clip_config :: "string \<Rightarrow> string \<Rightarrow> (string \<rightharpoonup> string)" where
  "clip_config start end' =
     (let config = [''codec:v'' \<mapsto> ''copy'', ''codec:a'' \<mapsto> ''copy''];
          config = config(''ss'' \<mapsto> start)
      in if end' \<noteq> [] then config(''to'' \<mapsto> end') else config)"

text \<open>
  The inner loop of \<open>main\<close> over the clips of one source (lines 57 to 77). \<open>os.path.join\<close> is
  the platform's and is the parameter \<open>path_join\<close>. A task is the coroutine
  \<open>build_clip(...)\<close>, which runs nothing until \<open>asyncio.gather\<close> is awaited.
\<close>

fun plan_loop ::
  "(string \<Rightarrow> string \<Rightarrow> string) \<Rightarrow> string \<Rightarrow> string \<Rightarrow> string \<Rightarrow> split list \<Rightarrow> store \<Rightarrow>
   nat \<Rightarrow> split list \<Rightarrow> invocation list \<Rightarrow> error + invocation list" where
  "plan_loop path_join output_dir source_path source_ext clip_ranges h i [] tasks = Inr tasks"
| "plan_loop path_join output_dir source_path source_ext clip_ranges h i ((name, r) # rest) tasks =
    (let interval = h r in
     if \<not> (0 < length interval \<and> length interval < 3) then Inl (Incompatible interval name)
     else
       (let file_name = name @ ''.'' @ source_ext;
            file_output_path = path_join output_dir file_name
        in case start_end i (length clip_ranges) interval of
             Inl e \<Rightarrow> Inl e
           | Inr (start, end') \<Rightarrow>
               plan_loop path_join output_dir source_path source_ext clip_ranges h (Suc i) rest
                 (tasks @ [build_clip source_path file_output_path (clip_config start end')])))"

text \<open>The body of the loop over the sources (lines 48 to 77), for one source.\<close>

definition main_source ::
  "(string \<Rightarrow> string \<Rightarrow> string) \<Rightarrow> string \<Rightarrow> source_file \<Rightarrow> invocation list \<Rightarrow>
   error + invocation list" where
  "main_source path_join output_dir source tasks =
     (let source_path = sf_path source;
          source_ext = source_ext_of source_path;
          (clip_ranges, h) = load_clip_ranges (sf_clip_ranges source)
      in case fix_intervals clip_ranges h of
           Inl e \<Rightarrow> Inl e
         | Inr (clip_ranges', h') \<Rightarrow>
             plan_loop path_join output_dir source_path source_ext clip_ranges' h' 0
               clip_ranges' tasks)"

fun main_loop ::
  "(string \<Rightarrow> string \<Rightarrow> string) \<Rightarrow> string \<Rightarrow> source_file list \<Rightarrow> invocation list \<Rightarrow>
   error + invocation list" where
  "main_loop path_join output_dir [] tasks = Inr tasks"
| "main_loop path_join output_dir (source # rest) tasks =
     (case main_source path_join output_dir source tasks of
        Inl e \<Rightarrow> Inl e
      | Inr tasks' \<Rightarrow> main_loop path_join output_dir rest tasks')"

text \<open>
  What the first lines of \<open>main\<close> meet outside the program: the outcome of
  \<open>ensure_ffmpeg()\<close> (line 36; the path of the tool, or the exception it raises), the outcome
  of opening and parsing \<open>./split_config.json\<close> (lines 42 and 43), and what the file system
  answers to creating a directory of a given non-empty name (line 46). The \<open>print\<close> calls
  are not modelled.
\<close>

record environment =
  ensure_ffmpeg :: "error + string"
  read_config :: "error + splits_config"
  mkdir_outcome :: "string \<Rightarrow> error option"

text \<open>
  \<open>os.makedirs(output_dir, exist_ok=True)\<close>: the empty name is no directory and cannot be
  created, whatever the file system holds, so the call raises \<open>FileNotFoundError\<close>; for
  any other name the file system decides.
\<close>

definition os_makedirs :: "environment \<Rightarrow> string \<Rightarrow> error option" where
  "os_makedirs env name =
     (if name = [] then Some FileNotFoundError else mkdir_outcome env name)"

text \<open>
  \<open>main\<close> up to line 79: the tasks handed to \<open>asyncio.gather\<close>, or the exception that ends
  the run before that line. The tool is located first, then the configuration is read and
  the output directory created, and only then are the sources visited.
\<close>

definition main :: "(string \<Rightarrow> string \<Rightarrow> string) \<Rightarrow> environment \<Rightarrow> error + invocation list" where
  "main path_join env =
     (case ensure_ffmpeg env of
        Inl e \<Rightarrow> Inl e
      | Inr ffmpeg_path \<Rightarrow>
          (case read_config env of
             Inl e \<Rightarrow> Inl e
           | Inr splits_config \<Rightarrow>
               (let output_dir = cfg_output_dir splits_config
                in case os_makedirs env output_dir of
                     Some e \<Rightarrow> Inl e
                   | None \<Rightarrow>
                       main_loop path_join output_dir (cfg_source_files splits_config) [])))"

text \<open>The invocations of the external tool a run starts: none when an exception precedes line 79.\<close>

definition launched :: "(string \<Rightarrow> string \<Rightarrow> string) \<Rightarrow> environment \<Rightarrow> invocation list" where
  "launched path_join env =
     (case main path_join env of Inl e \<Rightarrow> [] | Inr tasks \<Rightarrow> tasks)"

text \<open>
  For concrete inputs: joining with a slash, as \<open>os.path.join\<close> does on POSIX for a
  directory name without a trailing slash and a relative file name, and a file system
  that creates every directory asked for.
\<close>

definition slash_join :: "string \<Rightarrow> string \<Rightarrow> string" where
  "slash_join a b = a @ ''/'' @ b"

definition mkdir_succeeds :: "string \<Rightarrow> error option" where
  "mkdir_succeeds name = None"

text \<open>The clip ranges as a caller reads them back through the store.\<close>

definition read_back :: "split list \<Rightarrow> store \<Rightarrow> clip_spec list" where
  "read_back clip_ranges h = map (\<lambda>(name, r). (name, h r)) clip_ranges"

text \<open>
  Lines 52 to 55 of \<open>main\<close> seen from the configuration: the clip ranges of one source
  after \<open>fix_intervals\<close>, read back as values.
\<close>

definition resolve :: "clip_spec list \<Rightarrow> error + clip_spec list" where
  "resolve cs =
     (let (clip_ranges, h) = load_clip_ranges cs
      in case fix_intervals clip_ranges h of
           Inl e \<Rightarrow> Inl e
         | Inr (clip_ranges', h') \<Rightarrow> Inr (read_back clip_ranges' h'))"

text \<open>The store with nothing in it, for concrete inputs.\<close>

definition empty_store :: store where
  "empty_store = (\<lambda>r. [])"

subsection \<open>Auxiliary notions for the proofs\<close>

text \<open>The condition of the assertions of lines 15 and 59.\<close>

definition valid_interval :: "interval \<Rightarrow> bool" where
  "valid_interval interval \<longleftrightarrow> 0 < length interval \<and> length interval < 3"

text \<open>
  What the interval list of clip \<open>k\<close> holds once \<open>fix_intervals\<close> has passed it, when no two
  clips share a list; \<open>partly cs i\<close> is the store of a loaded source after \<open>i\<close> rounds of
  the loop. Both are used to state the loop invariant only.
\<close>

fun resolved :: "clip_spec list \<Rightarrow> nat \<Rightarrow> interval" where
  "resolved cs 0 =
     (let interval = snd (cs ! 0)
      in if length interval = 1 then ''00:00:00'' # interval else interval)"
| "resolved cs (Suc k) =
     (let interval = snd (cs ! Suc k)
      in if length interval = 1 \<and> Suc k \<noteq> length cs - 1
         then last (resolved cs k) # interval else interval)"

definition partly :: "clip_spec list \<Rightarrow> nat \<Rightarrow> store" where
  "partly cs i =
     (\<lambda>r. if r < i then resolved cs r else if r < length cs then snd (cs ! r) else [])"

definition first_conflict :: "clip_spec list \<Rightarrow> clip_spec option" where
  "first_conflict cs = find (\<lambda>c. \<not> valid_interval (snd c)) cs"

text \<open>The task of clip \<open>k\<close> of a loaded source, from the resolved intervals.\<close>

definition planned ::
  "(string \<Rightarrow> string \<Rightarrow> string) \<Rightarrow> string \<Rightarrow> string \<Rightarrow> clip_spec list \<Rightarrow> nat \<Rightarrow> invocation" where
  "planned path_join output_dir source_path cs k =
     build_clip source_path
       (path_join output_dir (fst (cs ! k) @ ''.'' @ source_ext_of source_path))
       (clip_config (resolved cs k ! 0)
          (if length (resolved cs k) = 1 then [] else resolved cs k ! 1))"

text \<open>The tasks of all sources, in the order of the configuration.\<close>

definition all_planned ::
  "(string \<Rightarrow> string \<Rightarrow> string) \<Rightarrow> string \<Rightarrow> source_file list \<Rightarrow> invocation list" where
  "all_planned path_join output_dir sources =
     concat (map (\<lambda>source. map (planned path_join output_dir (sf_path source)
                  (sf_clip_ranges source)) [0..<length (sf_clip_ranges source)]) sources)"

section \<open>Properties\<close>

subsection \<open>What fix_intervals writes\<close>

lemma frame_step:
  assumes len: "length (h a) = 1"
    and g: "g = h(a := x # h a)"
    and ih: "h' r = g r \<or> (length (g r) = 1 \<and> r \<in> S \<and> (\<exists>y. h' r = y # g r))"
  shows "h' r = h r \<or> (length (h r) = 1 \<and> r \<in> insert a S \<and> (\<exists>y. h' r = y # h r))"
proof (cases "r = a")
  case True
  with len ih show ?thesis by (auto simp: g)
next
  case False
  with ih show ?thesis by (auto simp: g)
qed

lemma frame_weaken:
  assumes "h' r = h r \<or> (length (h r) = 1 \<and> r \<in> S \<and> (\<exists>y. h' r = y # h r))"
  shows "h' r = h r \<or> (length (h r) = 1 \<and> r \<in> insert a S \<and> (\<exists>y. h' r = y # h r))"
  using assms by auto

lemma fix_loop_frame:
  "fix_loop cr i rest h = Inr h' \<Longrightarrow>
   h' r = h r \<or> (length (h r) = 1 \<and> r \<in> snd ` set rest \<and> (\<exists>x. h' r = x # h r))"
proof (induction rest arbitrary: i h)
  case Nil
  then show ?case by simp
next
  case (Cons sp rest)
  obtain name r0 where sp: "sp = (name, r0)" by (cases sp)
  have S: "snd ` set (sp # rest) = insert r0 (snd ` set rest)" by (simp add: sp)
  from Cons.prems have good: "0 < length (h r0)" "length (h r0) < 3"
    by (auto simp: sp Let_def split: if_splits)
  consider (first) "length (h r0) = 1" "i = 0"
    | (last) "length (h r0) = 1" "i \<noteq> 0" "i = length cr - 1"
    | (mid) "length (h r0) = 1" "i \<noteq> 0" "i \<noteq> length cr - 1"
    | (two) "length (h r0) \<noteq> 1" by blast
  then show ?case
  proof cases
    case first
    with Cons.prems have "fix_loop cr (Suc i) rest (h(r0 := ''00:00:00'' # h r0)) = Inr h'"
      by (auto simp: sp Let_def split: if_splits)
    from frame_step[where h = h and a = r0 and h' = h' and r = r, OF first(1) refl Cons.IH[OF this]]
    show ?thesis unfolding S .
  next
    case last
    with Cons.prems have "fix_loop cr (Suc i) rest h = Inr h'"
      by (auto simp: sp Let_def split: if_splits)
    from Cons.IH[OF this] show ?thesis unfolding S by (rule frame_weaken)
  next
    case mid
    with Cons.prems have
      "fix_loop cr (Suc i) rest (h(r0 := last (h (snd (cr ! (i - 1)))) # h r0)) = Inr h'"
      by (simp add: sp Let_def split: if_splits)
    from frame_step[where h = h and a = r0 and h' = h' and r = r, OF mid(1) refl Cons.IH[OF this]]
    show ?thesis unfolding S .
  next
    case two
    with Cons.prems good have "fix_loop cr (Suc i) rest h = Inr h'"
      by (auto simp: sp Let_def split: if_splits)
    from Cons.IH[OF this] show ?thesis unfolding S by (rule frame_weaken)
  qed
qed

subsection \<open>fix_intervals on a loaded source\<close>

lemma partly_0: "partly cs 0 = snd (load_clip_ranges cs)"
  by (simp add: partly_def load_clip_ranges_def)

lemma partly_Suc: "i < length cs \<Longrightarrow> partly cs (Suc i) = (partly cs i)(i := resolved cs i)"
  by (auto simp: partly_def fun_eq_iff)

lemma partly_at: "i < length cs \<Longrightarrow> partly cs i i = snd (cs ! i)"
  by (simp add: partly_def)

lemma partly_before: "k < i \<Longrightarrow> partly cs i k = resolved cs k"
  by (simp add: partly_def)

lemma resolved_nonempty: "valid_interval (snd (cs ! k)) \<Longrightarrow> resolved cs k \<noteq> []"
  by (cases k) (auto simp: valid_interval_def Let_def)

lemma loaded_drop:
  "i < length cs \<Longrightarrow>
   drop i (zip (map fst cs) [0..<length cs]) =
     (fst (cs ! i), i) # drop (Suc i) (zip (map fst cs) [0..<length cs])"
  by (simp add: Cons_nth_drop_Suc[symmetric])

lemma resolved_pos:
  "0 < i \<Longrightarrow> resolved cs i =
     (if length (snd (cs ! i)) = 1 \<and> i \<noteq> length cs - 1
      then last (resolved cs (i - 1)) # snd (cs ! i) else snd (cs ! i))"
  by (cases i) (simp_all add: Let_def)

lemma fix_loop_loaded:
  assumes "i \<le> length cs" and "\<forall>k<i. valid_interval (snd (cs ! k))"
  shows "fix_loop (zip (map fst cs) [0..<length cs]) i
           (drop i (zip (map fst cs) [0..<length cs])) (partly cs i) =
         (case first_conflict (drop i cs) of
            Some (name, interval) \<Rightarrow> Inl (Conflict interval name)
          | None \<Rightarrow> Inr (partly cs (length cs)))"
  using assms
proof (induction "length cs - i" arbitrary: i)
  case 0
  then show ?case by (simp add: first_conflict_def)
next
  case (Suc d)
  then have i: "i < length cs" by simp
  let ?CR = "zip (map fst cs) [0..<length cs]"
  have dcs: "drop i cs = cs ! i # drop (Suc i) cs"
    using i by (simp add: Cons_nth_drop_Suc)
  show ?case
  proof (cases "valid_interval (snd (cs ! i))")
    case False
    then show ?thesis
      using i by (simp add: loaded_drop dcs first_conflict_def partly_at valid_interval_def
          split: prod.splits)
  next
    case True
    have IH: "fix_loop ?CR (Suc i) (drop (Suc i) ?CR) (partly cs (Suc i)) =
         (case first_conflict (drop (Suc i) cs) of
            Some (name, interval) \<Rightarrow> Inl (Conflict interval name)
          | None \<Rightarrow> Inr (partly cs (length cs)))"
      using Suc.hyps(1)[of "Suc i"] Suc.hyps(2) Suc.prems True i
      by (auto simp: less_Suc_eq)
    have fc: "first_conflict (drop i cs) = first_conflict (drop (Suc i) cs)"
      using True by (simp add: dcs first_conflict_def)
    have prev: "0 < i \<Longrightarrow> partly cs i (snd (?CR ! (i - 1))) = resolved cs (i - 1)"
      using i by (simp add: partly_before)
    have prev_ne: "0 < i \<Longrightarrow> resolved cs (i - 1) \<noteq> []"
      using Suc.prems(2) by (intro resolved_nonempty) simp
    have upd: "partly cs (Suc i) = (partly cs i)(i := resolved cs i)"
      using i by (rule partly_Suc)
    have len: "length (snd (cs ! i)) = 1 \<or> length (snd (cs ! i)) = 2"
      using True unfolding valid_interval_def by arith
    consider (first) "length (snd (cs ! i)) = 1" "i = 0"
      | (last) "length (snd (cs ! i)) = 1" "0 < i" "i = length cs - 1"
      | (mid) "length (snd (cs ! i)) = 1" "0 < i" "i \<noteq> length cs - 1"
      | (two) "length (snd (cs ! i)) = 2" using len by fastforce
    then have step: "fix_loop ?CR i ((fst (cs ! i), i) # drop (Suc i) ?CR) (partly cs i) =
        fix_loop ?CR (Suc i) (drop (Suc i) ?CR) (partly cs (Suc i))"
    proof cases
      case first
      then have "partly cs (Suc i) = (partly cs i)(i := ''00:00:00'' # snd (cs ! i))"
        using upd by (simp add: Let_def)
      then show ?thesis
        using first i by (auto simp: partly_at Let_def)
    next
      case last
      then have "partly cs (Suc i) = partly cs i"
        using i upd by (simp add: resolved_pos partly_at[symmetric])
      then show ?thesis
        using last i by (auto simp: partly_at Let_def)
    next
      case mid
      then have "partly cs (Suc i) = (partly cs i)(i := last (resolved cs (i - 1)) # snd (cs ! i))"
        using upd by (simp add: resolved_pos)
      then show ?thesis
        using mid i prev prev_ne by (auto simp: partly_at Let_def)
    next
      case two
      then have "resolved cs i = snd (cs ! i)"
        by (cases i) (simp_all add: Let_def)
      then have "partly cs (Suc i) = partly cs i"
        using i upd by (simp add: partly_at[symmetric])
      then show ?thesis
        using two i by (auto simp: partly_at Let_def)
    qed
    show ?thesis
      unfolding loaded_drop[OF i] step IH fc ..
  qed
qed

lemma valid_interval_cases:
  "valid_interval xs \<longleftrightarrow> length xs = 1 \<or> length xs = 2"
  unfolding valid_interval_def by arith

lemma resolved_length:
  assumes "valid_interval (snd (cs ! k))"
  shows "length (resolved cs k) =
     (if length (snd (cs ! k)) = 1 \<and> 0 < k \<and> k = length cs - 1 then 1 else 2)"
  using assms by (cases k) (auto simp: valid_interval_cases Let_def)

lemma resolved_last_single:
  assumes "valid_interval (snd (cs ! k))" "length (resolved cs k) = 1"
  shows "0 < k \<and> k = length cs - 1 \<and> resolved cs k = snd (cs ! k)"
  using assms by (cases k) (auto simp: valid_interval_cases Let_def split: if_splits)

lemma start_end_resolved:
  assumes "valid_interval (snd (cs ! k))"
  shows "start_end k (length cs) (resolved cs k) =
     Inr (resolved cs k ! 0, if length (resolved cs k) = 1 then [] else resolved cs k ! 1)"
proof (cases "length (resolved cs k) = 1")
  case True
  with resolved_last_single[OF assms] show ?thesis by (simp add: start_end_def)
next
  case False
  with resolved_length[OF assms] have "length (resolved cs k) = 2" by (simp split: if_splits)
  then obtain s e where "resolved cs k = [s, e]"
    by (cases "resolved cs k"; cases "tl (resolved cs k)") auto
  then show ?thesis by (simp add: start_end_def)
qed

subsection \<open>Planning on a loaded source\<close>

lemma plan_loop_loaded:
  assumes "i \<le> length cs" and "\<forall>k<length cs. valid_interval (snd (cs ! k))"
  shows "plan_loop path_join output_dir source_path (source_ext_of source_path)
           (zip (map fst cs) [0..<length cs]) (partly cs (length cs)) i
           (drop i (zip (map fst cs) [0..<length cs])) tasks =
         Inr (tasks @ map (planned path_join output_dir source_path cs) [i..<length cs])"
  using assms
proof (induction "length cs - i" arbitrary: i tasks)
  case 0
  then show ?case by simp
next
  case (Suc d)
  then have i: "i < length cs" by simp
  let ?CR = "zip (map fst cs) [0..<length cs]"
  have v: "valid_interval (snd (cs ! i))" using Suc.prems(2) i by simp
  have r: "partly cs (length cs) i = resolved cs i" using i by (simp add: partly_before)
  have ne: "0 < length (resolved cs i) \<and> length (resolved cs i) < 3"
    using resolved_length[OF v] by (simp split: if_splits)
  have IH: "plan_loop path_join output_dir source_path (source_ext_of source_path) ?CR
      (partly cs (length cs)) (Suc i) (drop (Suc i) ?CR)
      (tasks @ [planned path_join output_dir source_path cs i]) =
      Inr ((tasks @ [planned path_join output_dir source_path cs i]) @
           map (planned path_join output_dir source_path cs) [Suc i..<length cs])"
    using Suc.hyps(1)[of "Suc i"] Suc.hyps(2) Suc.prems i by simp
  have "plan_loop path_join output_dir source_path (source_ext_of source_path) ?CR
      (partly cs (length cs)) i ((fst (cs ! i), i) # drop (Suc i) ?CR) tasks =
      plan_loop path_join output_dir source_path (source_ext_of source_path) ?CR
      (partly cs (length cs)) (Suc i) (drop (Suc i) ?CR)
      (tasks @ [planned path_join output_dir source_path cs i])"
    using ne by (simp add: r start_end_resolved[OF v] planned_def Let_def)
  then show ?case
    unfolding loaded_drop[OF i] IH using i by (simp add: upt_conv_Cons)
qed

lemma first_conflict_None: "first_conflict cs = None \<longleftrightarrow> (\<forall>k<length cs. valid_interval (snd (cs ! k)))"
proof -
  have "first_conflict cs = None \<longleftrightarrow> (\<forall>c\<in>set cs. valid_interval (snd c))"
    by (auto simp: first_conflict_def find_None_iff)
  then show ?thesis by (simp add: all_set_conv_all_nth)
qed

lemma first_conflict_append:
  "first_conflict (xs @ ys) = (case first_conflict xs of None \<Rightarrow> first_conflict ys | Some c \<Rightarrow> Some c)"
  unfolding first_conflict_def by (induction xs) auto

lemma fix_intervals_loaded:
  "fix_intervals (zip (map fst cs) [0..<length cs]) (snd (load_clip_ranges cs)) =
     (case first_conflict cs of
        Some (name, interval) \<Rightarrow> Inl (Conflict interval name)
      | None \<Rightarrow> Inr (zip (map fst cs) [0..<length cs], partly cs (length cs)))"
  using fix_loop_loaded[of 0 cs]
  by (simp add: fix_intervals_def partly_0 split: option.splits)

lemma read_back_loaded:
  "read_back (zip (map fst cs) [0..<length cs]) (partly cs (length cs)) =
     map (\<lambda>k. (fst (cs ! k), resolved cs k)) [0..<length cs]"
  by (auto simp: read_back_def partly_def intro!: nth_equalityI)

lemma resolve_loaded:
  "resolve cs =
     (case first_conflict cs of
        Some (name, interval) \<Rightarrow> Inl (Conflict interval name)
      | None \<Rightarrow> Inr (map (\<lambda>k. (fst (cs ! k), resolved cs k)) [0..<length cs]))"
  using fix_intervals_loaded[of cs]
  by (simp add: resolve_def load_clip_ranges_def partly_0[symmetric] read_back_loaded
      split: option.splits)

lemma main_source_loaded:
  "main_source path_join output_dir source tasks =
     (case first_conflict (sf_clip_ranges source) of
        Some (name, interval) \<Rightarrow> Inl (Conflict interval name)
      | None \<Rightarrow> Inr (tasks @ map (planned path_join output_dir (sf_path source)
                  (sf_clip_ranges source)) [0..<length (sf_clip_ranges source)]))"
proof (cases "first_conflict (sf_clip_ranges source)")
  case None
  then have v: "\<forall>k<length (sf_clip_ranges source). valid_interval (snd (sf_clip_ranges source ! k))"
    by (simp add: first_conflict_None)
  show ?thesis
    using fix_intervals_loaded[of "sf_clip_ranges source"]
      plan_loop_loaded[of 0 "sf_clip_ranges source", OF _ v]
    by (simp add: main_source_def load_clip_ranges_def partly_0[symmetric] None)
next
  case (Some c)
  then show ?thesis
    using fix_intervals_loaded[of "sf_clip_ranges source"]
    by (simp add: main_source_def load_clip_ranges_def partly_0[symmetric] split: prod.splits)
qed

lemma main_loop_loaded:
  "main_loop path_join output_dir sources tasks =
     (case first_conflict (concat (map sf_clip_ranges sources)) of
        Some (name, interval) \<Rightarrow> Inl (Conflict interval name)
      | None \<Rightarrow> Inr (tasks @ all_planned path_join output_dir sources))"
proof (induction sources arbitrary: tasks)
  case Nil
  then show ?case by (simp add: first_conflict_def all_planned_def)
next
  case (Cons source sources)
  show ?case
    by (simp add: main_source_loaded Cons.IH first_conflict_append all_planned_def
        split: option.splits)
qed

lemma first_conflict_simps:
  "first_conflict [] = None"
  "first_conflict ((name, interval) # cs) =
     (if valid_interval interval then first_conflict cs else Some (name, interval))"
  by (simp_all add: first_conflict_def)

lemma resolve_Inr:
  assumes "resolve cs = Inr res"
  shows "(\<forall>k<length cs. valid_interval (snd (cs ! k))) \<and>
         res = map (\<lambda>k. (fst (cs ! k), resolved cs k)) [0..<length cs]"
  using assms first_conflict_None[of cs]
  by (auto simp: resolve_loaded split: option.splits)

lemma valid_resolve:
  assumes "\<forall>c\<in>set cs. valid_interval (snd c)"
  shows "resolve cs = Inr (map (\<lambda>k. (fst (cs ! k), resolved cs k)) [0..<length cs])"
proof -
  from assms have "first_conflict cs = None"
    by (simp add: first_conflict_None all_set_conv_all_nth)
  then show ?thesis by (simp add: resolve_loaded)
qed

lemma valid_main_source:
  assumes "\<forall>k<length cs. valid_interval (snd (cs ! k))"
  shows "main_source path_join output_dir \<lparr>sf_path = p, sf_clip_ranges = cs\<rparr> [] =
     Inr (map (planned path_join output_dir p cs) [0..<length cs])"
  using assms by (simp add: main_source_loaded first_conflict_None[THEN iffD2])

lemma planned_ss:
  "output_options (planned path_join output_dir p cs k) ''ss'' = Some (resolved cs k ! 0)"
  by (simp add: planned_def build_clip_def clip_config_def Let_def)

lemma planned_to:
  "output_options (planned path_join output_dir p cs k) ''to'' =
     (if length (resolved cs k) = 1 \<or> resolved cs k ! 1 = [] then None
      else Some (resolved cs k ! 1))"
  by (simp add: planned_def build_clip_def clip_config_def Let_def)

lemma main_after_preamble:
  assumes "ensure_ffmpeg env = Inr ffmpeg_path"
    and "read_config env = Inr splits_config"
    and "os_makedirs env (cfg_output_dir splits_config) = None"
  shows "main path_join env =
     (case first_conflict (concat (map sf_clip_ranges (cfg_source_files splits_config))) of
        Some (name, interval) \<Rightarrow> Inl (Conflict interval name)
      | None \<Rightarrow> Inr (all_planned path_join (cfg_output_dir splits_config)
                  (cfg_source_files splits_config)))"
  using assms by (simp add: main_def main_loop_loaded Let_def split: option.splits)

lemma main_Inr:
  assumes "main path_join env = Inr tasks"
  shows "\<exists>splits_config. read_config env = Inr splits_config \<and>
           tasks = all_planned path_join (cfg_output_dir splits_config)
                     (cfg_source_files splits_config)"
  using assms
  by (auto simp: main_def main_loop_loaded Let_def split: sum.splits option.splits prod.splits)

lemma main_conflict_fails:
  assumes "read_config env = Inr splits_config"
    and "first_conflict (concat (map sf_clip_ranges (cfg_source_files splits_config))) = Some c"
  shows "\<exists>e. main path_join env = Inl e"
  using assms
  by (auto simp: main_def main_loop_loaded Let_def split: sum.splits option.splits prod.splits)

lemma planned_fixed_options:
  "output_options (planned path_join output_dir p cs k) ''codec:v'' = Some ''copy''"
  "output_options (planned path_join output_dir p cs k) ''codec:a'' = Some ''copy''"
  "global_options (planned path_join output_dir p cs k) = [''y'']"
  by (simp_all add: planned_def build_clip_def clip_config_def Let_def)

lemma find_Some_holds: "find P xs = Some x \<Longrightarrow> P x \<and> x \<in> set xs"
  by (induction xs) (auto split: if_splits)

lemma invalid_interval_iff:
  "(\<lambda>c. \<not> valid_interval (snd c)) = (\<lambda>c. length (snd c) = 0 \<or> 3 \<le> length (snd c))"
  by (auto simp: valid_interval_def fun_eq_iff)

section \<open>The claims\<close>


text \<open>
  C3: a source with one clip that carries one timestamp \<open>t\<close> is resolved by the rule of
  the first position: the interval becomes \<open>[00:00:00, t]\<close>, planning reads the start
  \<open>00:00:00\<close> and the end \<open>t\<close> from it, and the clip is not treated as the open-ended last one.
\<close>

theorem single_clip_first_wins:
  "resolve [(A, [t])] = Inr [(A, [''00:00:00'', t])] \<and>
   start_end 0 1 [''00:00:00'', t] = Inr (''00:00:00'', t) \<and>
   main_source path_join output_dir \<lparr>sf_path = p, sf_clip_ranges = [(A, [t])]\<rparr> [] =
     Inr [build_clip p (path_join output_dir (A @ ''.'' @ source_ext_of p))
            (clip_config ''00:00:00'' t)] \<and>
   clip_config ''00:00:00'' t ''ss'' = Some ''00:00:00'' \<and>
   clip_config ''00:00:00'' t ''to'' = (if t = [] then None else Some t)"
proof -
  let ?cs = "[(A, [t])]"
  have r0: "resolved ?cs 0 = [''00:00:00'', t]" by simp
  have fc: "first_conflict ?cs = None"
    by (simp add: first_conflict_simps valid_interval_def)
  have a: "resolve ?cs = Inr [(A, [''00:00:00'', t])]"
    unfolding resolve_loaded fc by simp
  have b: "main_source path_join output_dir \<lparr>sf_path = p, sf_clip_ranges = ?cs\<rparr> [] =
     Inr [build_clip p (path_join output_dir (A @ ''.'' @ source_ext_of p))
            (clip_config ''00:00:00'' t)]"
    unfolding main_source_loaded by (simp add: fc planned_def)
  have c: "start_end 0 1 [''00:00:00'', t] = Inr (''00:00:00'', t)"
    by (simp add: start_end_def)
  have d: "clip_config ''00:00:00'' t ''ss'' = Some ''00:00:00''"
    "clip_config ''00:00:00'' t ''to'' = (if t = [] then None else Some t)"
    by (simp_all add: clip_config_def Let_def)
  from a b c d show ?thesis by (intro conjI)
qed

text \<open>
  C2: in a source whose intervals all hold one or two timestamps, an interior clip at
  position \<open>i\<close> (neither first nor last) that supplies the single timestamp \<open>t\<close> is resolved to
  \<open>[e, t]\<close>, where the resolved interval of clip \<open>i - 1\<close> is \<open>[s, e]\<close>: the start of clip \<open>i\<close> is
  the end of clip \<open>i - 1\<close>, and clip \<open>i - 1\<close> always has its two timestamps. Planning reads
  the start and end \<open>(s, e)\<close> and \<open>(e, t)\<close> from the two intervals.
\<close>

theorem interior_single_chains:
  assumes "\<forall>c\<in>set cs. valid_interval (snd c)"
    and "0 < i" and "i < length cs - 1" and "snd (cs ! i) = [t]"
  shows "\<exists>res s e. resolve cs = Inr res \<and> length res = length cs \<and>
           snd (res ! (i - 1)) = [s, e] \<and> snd (res ! i) = [e, t] \<and>
           start_end (i - 1) (length cs) (snd (res ! (i - 1))) = Inr (s, e) \<and>
           start_end i (length cs) (snd (res ! i)) = Inr (e, t)"
proof -
  from assms(1) have v: "valid_interval (snd (cs ! (i - 1)))"
    using assms(3) by simp
  have "length (resolved cs (i - 1)) = 2"
    using resolved_length[OF v] assms(2,3) by auto
  then obtain s e where se: "resolved cs (i - 1) = [s, e]"
    by (cases "resolved cs (i - 1)"; cases "tl (resolved cs (i - 1))") auto
  have ri: "resolved cs i = [e, t]"
    using assms(2,3,4) se by (simp add: resolved_pos)
  have lt: "i < length cs" "i - 1 < length cs"
    using assms(3) by arith+
  have se': "start_end (i - 1) (length cs) [s, e] = Inr (s, e)"
    "start_end i (length cs) [e, t] = Inr (e, t)"
    by (simp_all add: start_end_def)
  show ?thesis
    using valid_resolve[OF assms(1)] lt se ri se' by simp
qed

theorem interior_single_chains_witness:
  "\<exists>res s e. resolve [(''A'', [''00:05:00'']), (''B'', [''00:09:00'']), (''C'', [''00:20:00''])] = Inr res \<and>
     length res = 3 \<and> snd (res ! 0) = [s, e] \<and> snd (res ! 1) = [e, ''00:09:00''] \<and>
     start_end 0 3 (snd (res ! 0)) = Inr (s, e) \<and>
     start_end 1 3 (snd (res ! 1)) = Inr (e, ''00:09:00'')"
  using interior_single_chains[of "[(''A'', [''00:05:00'']), (''B'', [''00:09:00'']), (''C'', [''00:20:00''])]" 1 "''00:09:00''"]
  by (simp add: valid_interval_def numeral_3_eq_3)

text \<open>
  C4: for a source whose intervals all hold one or two timestamps, resolution and planning
  succeed with one task per clip; every resolved interval has a first timestamp, which
  planning reads as the start, and the option \<open>ss\<close> of the clip's task is set to it.
\<close>

theorem every_task_has_seek_start:
  assumes "\<forall>c\<in>set cs. valid_interval (snd c)"
  shows "\<exists>res tasks. resolve cs = Inr res \<and>
           main_source path_join output_dir \<lparr>sf_path = p, sf_clip_ranges = cs\<rparr> [] = Inr tasks \<and>
           length res = length cs \<and> length tasks = length cs \<and>
           (\<forall>k<length cs. snd (res ! k) \<noteq> [] \<and>
              (\<exists>end'. start_end k (length cs) (snd (res ! k)) = Inr (snd (res ! k) ! 0, end')) \<and>
              output_options (tasks ! k) ''ss'' = Some (snd (res ! k) ! 0))"
proof -
  from assms have v: "\<forall>k<length cs. valid_interval (snd (cs ! k))"
    by (simp add: all_set_conv_all_nth)
  have "\<forall>k<length cs. resolved cs k \<noteq> [] \<and>
      (\<exists>end'. start_end k (length cs) (resolved cs k) = Inr (resolved cs k ! 0, end')) \<and>
      output_options (planned path_join output_dir p cs k) ''ss'' = Some (resolved cs k ! 0)"
    using v by (simp add: resolved_nonempty start_end_resolved planned_ss)
  then show ?thesis
    using valid_resolve[OF assms] valid_main_source[OF v] by simp
qed

theorem every_task_has_seek_start_witness:
  "valid_interval [''00:05:00''] \<and> valid_interval [''00:07:00'', ''00:09:00''] \<and>
   (\<exists>res tasks.
      resolve [(''A'', [''00:05:00'']), (''B'', [''00:07:00'', ''00:09:00''])] = Inr res \<and>
      main_source (\<lambda>a b. a @ ''/'' @ b) ''out''
        \<lparr>sf_path = ''in.mp4'',
         sf_clip_ranges = [(''A'', [''00:05:00'']), (''B'', [''00:07:00'', ''00:09:00''])]\<rparr> [] =
        Inr tasks \<and>
      snd (res ! 0) \<noteq> [] \<and> snd (res ! 1) \<noteq> [] \<and>
      output_options (tasks ! 0) ''ss'' = Some (snd (res ! 0) ! 0) \<and>
      output_options (tasks ! 1) ''ss'' = Some (snd (res ! 1) ! 0))"
  using every_task_has_seek_start[of "[(''A'', [''00:05:00'']), (''B'', [''00:07:00'', ''00:09:00''])]"
      "\<lambda>a b. a @ ''/'' @ b" "''out''" "''in.mp4''"]
  by (auto simp: valid_interval_def)

text \<open>
  C5: a resolved interval without an end, that is one that still holds a single timestamp
  after resolution, belongs to the last clip of a source of at least two clips and is the
  interval as supplied; planning reads an absent end from it, and the option mapping of
  its task has no key \<open>to\<close> at all, while \<open>ss\<close> is the supplied timestamp.
\<close>

theorem open_end_omits_to:
  assumes "resolve cs = Inr res" and "k < length cs" and "length (snd (res ! k)) = 1"
  shows "0 < k \<and> k = length cs - 1 \<and> snd (cs ! k) = snd (res ! k) \<and>
         start_end k (length cs) (snd (res ! k)) = Inr (snd (res ! k) ! 0, []) \<and>
         (\<exists>tasks. main_source path_join output_dir \<lparr>sf_path = p, sf_clip_ranges = cs\<rparr> [] =
              Inr tasks \<and> length tasks = length cs \<and>
            ''to'' \<notin> dom (output_options (tasks ! k)) \<and>
            output_options (tasks ! k) ''ss'' = Some (snd (res ! k) ! 0))"
proof -
  from resolve_Inr[OF assms(1)] have v: "\<forall>k<length cs. valid_interval (snd (cs ! k))"
    and res: "res = map (\<lambda>k. (fst (cs ! k), resolved cs k)) [0..<length cs]" by simp_all
  have rk: "snd (res ! k) = resolved cs k" using assms(2) by (simp add: res)
  have vk: "valid_interval (snd (cs ! k))" using v assms(2) by simp
  have one: "length (resolved cs k) = 1" using assms(3) rk by simp
  note pos = resolved_last_single[OF vk one]
  have se: "start_end k (length cs) (resolved cs k) = Inr (resolved cs k ! 0, [])"
    using start_end_resolved[OF vk] one by simp
  have nodom: "''to'' \<notin> dom (output_options (planned path_join output_dir p cs k))"
    using one by (simp add: planned_to dom_def)
  have tasks: "\<exists>tasks. main_source path_join output_dir \<lparr>sf_path = p, sf_clip_ranges = cs\<rparr> [] =
              Inr tasks \<and> length tasks = length cs \<and>
            ''to'' \<notin> dom (output_options (tasks ! k)) \<and>
            output_options (tasks ! k) ''ss'' = Some (snd (res ! k) ! 0)"
    using valid_main_source[OF v, of path_join output_dir p] assms(2) nodom rk
    by (simp add: planned_ss)
  have a: "0 < k" and b: "k = length cs - 1" and c: "snd (cs ! k) = snd (res ! k)"
    using pos rk by auto
  have d: "start_end k (length cs) (snd (res ! k)) = Inr (snd (res ! k) ! 0, [])"
    using se rk by simp
  from a b c d tasks show ?thesis by (intro conjI)
qed

theorem open_end_omits_to_witness:
  "resolve [(''A'', [''00:05:00'', ''00:07:00'']), (''B'', [''00:09:00''])] =
     Inr [(''A'', [''00:05:00'', ''00:07:00'']), (''B'', [''00:09:00''])] \<and>
   (\<exists>tasks. main_source (\<lambda>a b. a @ ''/'' @ b) ''out''
        \<lparr>sf_path = ''in.mp4'',
         sf_clip_ranges = [(''A'', [''00:05:00'', ''00:07:00'']), (''B'', [''00:09:00''])]\<rparr> [] =
        Inr tasks \<and>
      ''to'' \<notin> dom (output_options (tasks ! 1)) \<and>
      output_options (tasks ! 1) ''ss'' = Some ''00:09:00'')"
proof -
  let ?cs = "[(''A'', [''00:05:00'', ''00:07:00'']), (''B'', [''00:09:00''])]"
  have fc: "first_conflict ?cs = None"
    by (simp add: first_conflict_simps valid_interval_def)
  have r: "resolve ?cs = Inr ?cs"
    unfolding resolve_loaded fc by (simp add: upt_rec)
  from open_end_omits_to[OF r, of 1 "\<lambda>a b. a @ ''/'' @ b" "''out''" "''in.mp4''"] r
  show ?thesis by auto
qed

text \<open>
  C10: a clip whose resolved interval is \<open>[s, '']\<close>, two timestamps with the empty string as
  end, is planned like an open-ended clip wherever it stands in the source: the option
  mapping of its task has \<open>ss\<close> set to \<open>s\<close> and no key \<open>to\<close>.
\<close>

theorem empty_end_omits_to:
  assumes "resolve cs = Inr res" and "k < length cs" and "snd (res ! k) = [s, []]"
  shows "start_end k (length cs) (snd (res ! k)) = Inr (s, []) \<and>
         (\<exists>tasks. main_source path_join output_dir \<lparr>sf_path = p, sf_clip_ranges = cs\<rparr> [] =
              Inr tasks \<and> length tasks = length cs \<and>
            ''to'' \<notin> dom (output_options (tasks ! k)) \<and>
            output_options (tasks ! k) ''ss'' = Some s)"
proof -
  from resolve_Inr[OF assms(1)] have v: "\<forall>k<length cs. valid_interval (snd (cs ! k))"
    and res: "res = map (\<lambda>k. (fst (cs ! k), resolved cs k)) [0..<length cs]" by simp_all
  have rk: "resolved cs k = [s, []]" using assms(2,3) by (simp add: res)
  have vk: "valid_interval (snd (cs ! k))" using v assms(2) by simp
  have se: "start_end k (length cs) (resolved cs k) = Inr (s, [])"
    using start_end_resolved[OF vk] rk by simp
  have "''to'' \<notin> dom (output_options (planned path_join output_dir p cs k))"
    using rk by (simp add: planned_to dom_def)
  then show ?thesis
    using se rk assms(3) valid_main_source[OF v, of path_join output_dir p] assms(2)
    by (simp add: planned_ss)
qed

theorem empty_end_omits_to_witness:
  "resolve [(''A'', [''00:05:00'', '''']), (''B'', [''00:07:00'', ''00:09:00''])] =
     Inr [(''A'', [''00:05:00'', '''']), (''B'', [''00:07:00'', ''00:09:00''])] \<and>
   (\<exists>tasks. main_source (\<lambda>a b. a @ ''/'' @ b) ''out''
        \<lparr>sf_path = ''in.mp4'',
         sf_clip_ranges = [(''A'', [''00:05:00'', '''']), (''B'', [''00:07:00'', ''00:09:00''])]\<rparr> [] =
        Inr tasks \<and>
      ''to'' \<notin> dom (output_options (tasks ! 0)) \<and>
      output_options (tasks ! 0) ''ss'' = Some ''00:05:00'')"
proof -
  let ?cs = "[(''A'', [''00:05:00'', '''']), (''B'', [''00:07:00'', ''00:09:00''])]"
  have fc: "first_conflict ?cs = None"
    by (simp add: first_conflict_simps valid_interval_def)
  have r: "resolve ?cs = Inr ?cs"
    unfolding resolve_loaded fc by (simp add: upt_rec)
  from empty_end_omits_to[OF r, of 0 "''00:05:00''" "\<lambda>a b. a @ ''/'' @ b" "''out''" "''in.mp4''"] r
  show ?thesis by auto
qed

text \<open>
  C6, as stated: whenever a clip has an interval of length 0 or of length 3 or more, the
  run fails with an error that identifies that clip. It does not when the run fails
  earlier: with the output directory \<open>''\<close> and the clip \<open>A:[]\<close>, line 46 raises
  \<open>FileNotFoundError\<close> before any clip is read, and the error names no clip.
\<close>

theorem bad_interval_unreported_counterexample:
  "main slash_join
     \<lparr>ensure_ffmpeg = Inr ''ffmpeg'',
      read_config = Inr
        \<lparr>cfg_output_dir = '''',
         cfg_source_files = [\<lparr>sf_path = ''in.mp4'', sf_clip_ranges = [(''A'', [])]\<rparr>]\<rparr>,
      mkdir_outcome = mkdir_succeeds\<rparr> = Inl FileNotFoundError \<and>
   main slash_join
     \<lparr>ensure_ffmpeg = Inr ''ffmpeg'',
      read_config = Inr
        \<lparr>cfg_output_dir = '''',
         cfg_source_files = [\<lparr>sf_path = ''in.mp4'', sf_clip_ranges = [(''A'', [])]\<rparr>]\<rparr>,
      mkdir_outcome = mkdir_succeeds\<rparr> \<noteq> Inl (Conflict [] ''A'')"
  by (simp add: main_def os_makedirs_def)

text \<open>
  C6, amended: when some clip of some source of the configuration read has an interval of
  length 0 or of length 3 or more, \<open>main\<close> ends with an exception and no invocation of the
  external tool is started; and when the tool was located and the output directory
  created, that exception is the assertion error of \<open>fix_intervals\<close>, which carries the name
  and the interval of the first such clip of the configuration.
\<close>

theorem bad_interval_is_fatal:
  assumes "read_config env = Inr splits_config"
    and "source \<in> set (cfg_source_files splits_config)"
    and "(name, interval) \<in> set (sf_clip_ranges source)"
    and "length interval = 0 \<or> 3 \<le> length interval"
  shows "launched path_join env = [] \<and> (\<exists>e. main path_join env = Inl e) \<and>
         ((\<exists>ffmpeg_path. ensure_ffmpeg env = Inr ffmpeg_path) \<and>
          os_makedirs env (cfg_output_dir splits_config) = None \<longrightarrow>
          (\<exists>name' interval'.
             main path_join env = Inl (Conflict interval' name') \<and>
             find (\<lambda>c. length (snd c) = 0 \<or> 3 \<le> length (snd c))
               (concat (map sf_clip_ranges (cfg_source_files splits_config))) =
               Some (name', interval') \<and>
             (length interval' = 0 \<or> 3 \<le> length interval')))"
proof -
  let ?all = "concat (map sf_clip_ranges (cfg_source_files splits_config))"
  let ?bad = "\<lambda>c::clip_spec. length (snd c) = 0 \<or> 3 \<le> length (snd c)"
  have fc: "first_conflict ?all = find ?bad ?all"
    by (simp add: first_conflict_def invalid_interval_iff)
  have "(name, interval) \<in> set ?all" using assms(2,3) by auto
  with assms(4) have "find ?bad ?all \<noteq> None"
    by (auto simp: find_None_iff)
  then obtain name' interval' where f: "find ?bad ?all = Some (name', interval')"
    by (cases "find ?bad ?all") auto
  then have bad: "length interval' = 0 \<or> 3 \<le> length interval'"
    using find_Some_holds[OF f] by simp
  from main_conflict_fails[OF assms(1) fc[unfolded f]]
  obtain e where e: "main path_join env = Inl e" by blast
  then have l: "launched path_join env = []"
    by (simp add: launched_def)
  have "main path_join env = Inl (Conflict interval' name')"
    if "ensure_ffmpeg env = Inr ffmpeg_path"
      and "os_makedirs env (cfg_output_dir splits_config) = None" for ffmpeg_path
    using main_after_preamble[OF that(1) assms(1) that(2), of path_join] f
    by (simp add: fc)
  with e l f bad show ?thesis by blast
qed

theorem bad_interval_is_fatal_witness:
  "main slash_join
     \<lparr>ensure_ffmpeg = Inr ''ffmpeg'',
      read_config = Inr
        \<lparr>cfg_output_dir = ''out'',
         cfg_source_files =
           [\<lparr>sf_path = ''in.mp4'',
             sf_clip_ranges = [(''A'', [''00:05:00'']),
                               (''B'', [''00:06:00'', ''00:07:00'', ''00:08:00'']),
                               (''C'', [])]\<rparr>]\<rparr>,
      mkdir_outcome = mkdir_succeeds\<rparr> =
     Inl (Conflict [''00:06:00'', ''00:07:00'', ''00:08:00''] ''B'') \<and>
   launched slash_join
     \<lparr>ensure_ffmpeg = Inr ''ffmpeg'',
      read_config = Inr
        \<lparr>cfg_output_dir = ''out'',
         cfg_source_files =
           [\<lparr>sf_path = ''in.mp4'',
             sf_clip_ranges = [(''A'', [''00:05:00'']),
                               (''B'', [''00:06:00'', ''00:07:00'', ''00:08:00'']),
                               (''C'', [])]\<rparr>]\<rparr>,
      mkdir_outcome = mkdir_succeeds\<rparr> = []"
  using bad_interval_is_fatal[of
      "\<lparr>ensure_ffmpeg = Inr ''ffmpeg'',
      read_config = Inr
        \<lparr>cfg_output_dir = ''out'',
         cfg_source_files =
           [\<lparr>sf_path = ''in.mp4'',
             sf_clip_ranges = [(''A'', [''00:05:00'']),
                               (''B'', [''00:06:00'', ''00:07:00'', ''00:08:00'']),
                               (''C'', [])]\<rparr>]\<rparr>,
      mkdir_outcome = mkdir_succeeds\<rparr>"
      "\<lparr>cfg_output_dir = ''out'',
         cfg_source_files =
           [\<lparr>sf_path = ''in.mp4'',
             sf_clip_ranges = [(''A'', [''00:05:00'']),
                               (''B'', [''00:06:00'', ''00:07:00'', ''00:08:00'']),
                               (''C'', [])]\<rparr>]\<rparr>"
      "\<lparr>sf_path = ''in.mp4'',
             sf_clip_ranges = [(''A'', [''00:05:00'']),
                               (''B'', [''00:06:00'', ''00:07:00'', ''00:08:00'']),
                               (''C'', [])]\<rparr>"
      "''C''" "[]" slash_join]
  by (auto simp: os_makedirs_def mkdir_succeeds_def)

text \<open>
  C8, as stated: \<open>fix_intervals\<close> leaves the clip ranges it is given unchanged. It does not:
  for the single clip \<open>A:[00:05:00]\<close> the interval list of the caller holds
  \<open>[00:00:00, 00:05:00]\<close> after the call.
\<close>

theorem fix_intervals_mutates_counterexample:
  "fix_intervals [(''A'', 0)] (empty_store(0 := [''00:05:00''])) =
     Inr ([(''A'', 0)], empty_store(0 := [''00:00:00'', ''00:05:00''])) \<and>
   read_back [(''A'', 0)] (empty_store(0 := [''00:05:00''])) = [(''A'', [''00:05:00''])] \<and>
   read_back [(''A'', 0)] (empty_store(0 := [''00:00:00'', ''00:05:00''])) =
     [(''A'', [''00:00:00'', ''00:05:00''])] \<and>
   (empty_store(0 := [''00:00:00'', ''00:05:00''])) 0 \<noteq> (empty_store(0 := [''00:05:00''])) 0"
  by (simp add: fix_intervals_def read_back_def)

text \<open>
  C8, amended: \<open>fix_intervals\<close> resolves in place. It returns the very sequence it was given,
  and the only list objects it changes are interval lists of that sequence that held exactly
  one timestamp, each by one timestamp inserted at the front; every other list object
  is left as it was.
\<close>

theorem fix_intervals_in_place:
  assumes "fix_intervals clip_ranges h = Inr (clip_ranges', h')"
  shows "clip_ranges' = clip_ranges \<and>
         (\<forall>r. h' r = h r \<or>
              (length (h r) = 1 \<and> r \<in> snd ` set clip_ranges \<and> (\<exists>x. h' r = x # h r)))"
proof -
  from assms have eq: "clip_ranges' = clip_ranges"
    and loop: "fix_loop clip_ranges 0 clip_ranges h = Inr h'"
    by (auto simp: fix_intervals_def split: sum.splits)
  from fix_loop_frame[OF loop] eq show ?thesis by blast
qed

theorem fix_intervals_in_place_witness:
  "fix_intervals [(''A'', 0), (''B'', 1)]
     (empty_store(0 := [''00:05:00''], 1 := [''00:07:00'', ''00:09:00''])) =
     Inr ([(''A'', 0), (''B'', 1)],
          empty_store(0 := [''00:00:00'', ''00:05:00''], 1 := [''00:07:00'', ''00:09:00''])) \<and>
   (empty_store(0 := [''00:00:00'', ''00:05:00''], 1 := [''00:07:00'', ''00:09:00''])) 0 =
     ''00:00:00'' # (empty_store(0 := [''00:05:00''], 1 := [''00:07:00'', ''00:09:00''])) 0 \<and>
   (empty_store(0 := [''00:00:00'', ''00:05:00''], 1 := [''00:07:00'', ''00:09:00''])) 1 =
     (empty_store(0 := [''00:05:00''], 1 := [''00:07:00'', ''00:09:00''])) 1"
proof -
  let ?h = "empty_store(0 := [''00:05:00''], 1 := [''00:07:00'', ''00:09:00''])"
  let ?h' = "empty_store(0 := [''00:00:00'', ''00:05:00''], 1 := [''00:07:00'', ''00:09:00''])"
  have run: "fix_intervals [(''A'', 0), (''B'', 1)] ?h = Inr ([(''A'', 0), (''B'', 1)], ?h')"
    by (simp add: fix_intervals_def fun_upd_twist)
  from fix_intervals_in_place[OF run] run show ?thesis by simp
qed

text \<open>
  C9: every task that \<open>main\<close> hands to \<open>asyncio.gather\<close>, hence every invocation of the
  external tool, maps \<open>codec:v\<close> and \<open>codec:a\<close> to \<open>copy\<close> and carries the global option
  \<open>y\<close>.
\<close>

theorem stream_copy_and_overwrite:
  assumes "main path_join env = Inr tasks" and "t \<in> set tasks"
  shows "launched path_join env = tasks \<and>
         output_options t ''codec:v'' = Some ''copy'' \<and>
         output_options t ''codec:a'' = Some ''copy'' \<and>
         global_options t = [''y'']"
proof -
  from main_Inr[OF assms(1)] obtain splits_config :: splits_config where
    tasks: "tasks = all_planned path_join (cfg_output_dir splits_config)
      (cfg_source_files splits_config)"
    by auto
  with assms(2) obtain p cs k where "t = planned path_join (cfg_output_dir splits_config) p cs k"
    by (auto simp: all_planned_def)
  then show ?thesis
    using assms(1) by (simp add: planned_fixed_options launched_def)
qed

theorem stream_copy_and_overwrite_witness:
  "main slash_join
     \<lparr>ensure_ffmpeg = Inr ''ffmpeg'',
      read_config = Inr
        \<lparr>cfg_output_dir = ''out'',
         cfg_source_files = [\<lparr>sf_path = ''in.mp4'', sf_clip_ranges = [(''A'', [''00:05:00''])]\<rparr>]\<rparr>,
      mkdir_outcome = mkdir_succeeds\<rparr> =
     Inr [build_clip ''in.mp4'' ''out/A.mp4'' (clip_config ''00:00:00'' ''00:05:00'')] \<and>
   output_options (build_clip ''in.mp4'' ''out/A.mp4'' (clip_config ''00:00:00'' ''00:05:00''))
     ''codec:v'' = Some ''copy'' \<and>
   output_options (build_clip ''in.mp4'' ''out/A.mp4'' (clip_config ''00:00:00'' ''00:05:00''))
     ''codec:a'' = Some ''copy'' \<and>
   global_options (build_clip ''in.mp4'' ''out/A.mp4'' (clip_config ''00:00:00'' ''00:05:00'')) =
     [''y'']"
proof -
  let ?cfg = "\<lparr>cfg_output_dir = ''out'',
      cfg_source_files = [\<lparr>sf_path = ''in.mp4'', sf_clip_ranges = [(''A'', [''00:05:00''])]\<rparr>]\<rparr>"
  let ?env = "\<lparr>ensure_ffmpeg = Inr ''ffmpeg'', read_config = Inr ?cfg,
      mkdir_outcome = mkdir_succeeds\<rparr>"
  let ?t = "build_clip ''in.mp4'' ''out/A.mp4'' (clip_config ''00:00:00'' ''00:05:00'')"
  have m: "main slash_join ?env = Inr [?t]"
    by (simp add: main_after_preamble[of ?env "''ffmpeg''" ?cfg] os_makedirs_def
        mkdir_succeeds_def first_conflict_simps valid_interval_def all_planned_def
        planned_def source_ext_of_def slash_join_def)
  from stream_copy_and_overwrite[OF m, of ?t] m show ?thesis by simp
qed

end
